theory Spec2Isabelle
  imports Main "HOL-Library.Word" "HOL-Library.AList"
begin

unbundle bit_operations_syntax

section \<open>ProxyPunch: the NAT-punching and forwarding engine\<close>

text \<open>
  The engine modelled here is the multi-peer generation of the program: the functions
  \<open>client\<close> and \<open>server\<close> of the Go source, with the mapping table, the per-peer loopback
  sockets and the two idle sweeps.

  Each goroutine is a thread of the model. A thread advances by one atomic step when the
  scheduler hands it an event; the event carries what the environment decides: the result
  of a \<open>ReadFromUDP\<close>, the readings of \<open>time.Now()\<close>, whether \<open>net.ListenUDP\<close>
  succeeds. A step returns the new state and the effects it performed, in source order,
  each tagged with the thread that performed it. An event offered to a thread that cannot
  take it (blocked on a channel, not started, already returned) leaves the state as it is.

  The receive buffers of the source are scratch space: every read of a buffer lies inside
  the bytes that the preceding \<open>ReadFromUDP\<close> has just stored. A handler therefore works
  on the stored bytes \<open>b\<close> with \<open>n = length b\<close>; with the source reading into
  \<open>buffer[1:]\<close>, \<open>buffer[1]\<close> is \<open>hd b\<close> and \<open>buffer[2:n+1]\<close> is \<open>tl b\<close>.
\<close>

subsection \<open>Addresses, time, sockets\<close>

type_synonym byte = "8 word"

text \<open>Readings of the clock and durations, in nanoseconds as in Go's \<open>time.Duration\<close>.\<close>

type_synonym time = int

definition Millisecond :: int where
  "Millisecond = 1000000"

definition Second :: int where
  "Second = 1000 * Millisecond"

definition flushInterval :: int where
  "flushInterval = 10 * Second"

text \<open>
  \<open>net.UDPAddr\<close>. The sockets are all \<open>udp4\<close>: an \<open>IP\<close> stands for its four-byte form
  (\<open>To4()\<close>), on which \<open>IP.Equal\<close> is equality of the bytes.
\<close>

record UDPAddr =
  IP :: "byte list"
  Port :: int

record addrKey =
  ip :: "byte list"
  port :: int

definition toUDP :: "addrKey \<Rightarrow> UDPAddr" where
  "toUDP k = \<lparr>IP = ip k, Port = port k\<rparr>"

definition newAddrKey :: "UDPAddr \<Rightarrow> addrKey" where
  "newAddrKey udp = \<lparr>ip = IP udp, port = Port udp\<rparr>"

text \<open>
  \<open>localIpv4\<close> is 127.0.0.0/8. \<open>localIpv6\<close> is fc00::/7, a sixteen-byte network:
  \<open>IPNet.Contains\<close> is false there for every four-byte address.
\<close>

definition localIpv4_Contains :: "byte list \<Rightarrow> bool" where
  "localIpv4_Contains a = (length a = 4 \<and> hd a = 127)"

definition localIpv6_Contains :: "byte list \<Rightarrow> bool" where
  "localIpv6_Contains a = (length a = 16 \<and> hd a AND 0xFE = 0xFC)"

text \<open>The public socket \<open>c\<close> and the per-peer loopback sockets \<open>cLocal\<close>, numbered as they are opened.\<close>

datatype sock = Public | Loop nat

datatype logmsg =
    RelayWrongSize nat
  | PeerWrongSize nat
  | GameServerWrongSize nat
  | Connected "byte list" int
  | ConnectedToPeer
  | NewPeer "byte list"
  | PeerTimeout "byte list"
  | PeerReadFailed UDPAddr

text \<open>
  What a step does to the outside. \<open>PeersDelete\<close> records \<open>delete(peers, k)\<close> and
  \<open>CloseChIp\<close> records \<open>close(chIp)\<close>, so that their place among the other effects of
  the step is visible. \<open>Fatal\<close> is \<open>log.Fatal\<close>: the process exits.
\<close>

datatype effect =
    WriteToUDP sock "byte list" UDPAddr
  | Close sock
  | Println logmsg
  | Stderr logmsg
  | Sleep int
  | ListenUDP sock
  | PeersDelete addrKey
  | CloseChIp
  | Fatal

text \<open>
  The result of \<open>ReadFromUDP\<close> on a buffer of \<open>cap\<close> bytes: an error, or the bytes stored
  and the source address. A datagram longer than the buffer is cut to the buffer (where the
  platform reports an error for it instead, the result is \<open>RecvErr\<close>).
\<close>

datatype recv = RecvErr | Recv "byte list" UDPAddr

fun ReadFromUDP :: "nat \<Rightarrow> recv \<Rightarrow> (byte list \<times> UDPAddr) option" where
  "ReadFromUDP cap RecvErr = None"
| "ReadFromUDP cap (Recv p a) = Some (take cap p, a)"

text \<open>\<open>binary.BigEndian.Uint16\<close>; every call site passes a slice of exactly two bytes.\<close>

fun BigEndian_Uint16 :: "byte list \<Rightarrow> int" where
  "BigEndian_Uint16 (b0 # b1 # bs) = uint b0 * 256 + uint b1"
| "BigEndian_Uint16 bs = 0"

definition punchPayload :: "byte list" where
  "punchPayload = [0xCD]"

subsection \<open>The client\<close>

datatype client_pc = CDiscover | CRun

record client_state =
  c_port :: int
  c_relayAddr :: UDPAddr
  c_remoteAddr :: UDPAddr
  c_pc :: client_pc
  c_foundPeer :: bool
  c_localAddr :: UDPAddr

text \<open>
  The state after startup: the socket is bound, the relay and the remote host are resolved.
  \<open>localAddr\<close> is the zero \<open>net.UDPAddr\<close>.
\<close>

definition client_init :: "UDPAddr \<Rightarrow> byte list \<Rightarrow> int \<Rightarrow> client_state" where
  "client_init relay host prt =
     \<lparr>c_port = prt, c_relayAddr = relay, c_remoteAddr = \<lparr>IP = host, Port = prt\<rparr>,
      c_pc = CDiscover, c_foundPeer = False, c_localAddr = \<lparr>IP = [], Port = 0\<rparr>\<rparr>"

text \<open>\<open>append([]byte{byte(port >> 8), byte(port)}, remoteAddr.IP.To4()...)\<close>\<close>

definition client_relayPayload :: "client_state \<Rightarrow> byte list" where
  "client_relayPayload s =
     [word_of_int (c_port s div 256), word_of_int (c_port s)] @ IP (c_remoteAddr s)"

text \<open>One iteration of the announcing goroutine.\<close>

definition client_announce :: "client_state \<Rightarrow> client_state \<times> effect list" where
  "client_announce s =
     (s, [WriteToUDP Public (client_relayPayload s) (c_relayAddr s), Sleep (500 * Millisecond)])"

text \<open>One iteration of the first loop of \<open>client\<close>: waiting for the relay's reply.\<close>

definition client_discover :: "recv \<Rightarrow> client_state \<Rightarrow> client_state \<times> effect list" where
  "client_discover r s =
     (case ReadFromUDP 4096 r of
        None \<Rightarrow> (s, [])
      | Some (b, addr) \<Rightarrow>
          if IP addr \<noteq> IP (c_relayAddr s) \<or> Port addr \<noteq> Port (c_relayAddr s) then (s, [])
          else if length b \<noteq> 2 then (s, [Stderr (RelayWrongSize (length b))])
          else (s\<lparr>c_remoteAddr := (c_remoteAddr s)\<lparr>Port := BigEndian_Uint16 (take 2 b)\<rparr>,
                  c_pc := CRun\<rparr>, []))"

text \<open>One iteration of the punching goroutine, started after the first loop has ended.\<close>

definition client_punch :: "client_state \<Rightarrow> client_state \<times> effect list" where
  "client_punch s =
     (s, [WriteToUDP Public punchPayload (c_remoteAddr s), Sleep (500 * Millisecond)])"

text \<open>One iteration of the second loop of \<open>client\<close>: forwarding.\<close>

definition client_forward :: "recv \<Rightarrow> client_state \<Rightarrow> client_state \<times> effect list" where
  "client_forward r s =
     (case ReadFromUDP (4096 - 1) r of
        None \<Rightarrow> (s, [])
      | Some (b, addr) \<Rightarrow>
          if length b > 4096 - 1 then (s, [Stderr (PeerWrongSize (length b))])
          else if IP addr = IP (c_relayAddr s) \<and> Port addr = Port (c_relayAddr s) then (s, [])
          else if IP addr = IP (c_remoteAddr s) \<and> Port addr = Port (c_remoteAddr s) then
            (s\<lparr>c_foundPeer := True\<rparr>,
             (if \<not> c_foundPeer s then [Println ConnectedToPeer] else []) @
             (if length b \<noteq> 0 \<and> Port (c_localAddr s) \<noteq> 0 \<and> hd b = 0xCC
              then [WriteToUDP Public (tl b) (c_localAddr s)] else []))
          else if localIpv4_Contains (IP addr) \<or> localIpv6_Contains (IP addr) then
            (s\<lparr>c_localAddr := addr\<rparr>, [WriteToUDP Public (0xCC # b) (c_remoteAddr s)])
          else (s, []))"

datatype client_thread = TAnnounce | TClient | TPunch

datatype client_event = Announce | ClientRecv recv | Punch

definition tag :: "'t \<Rightarrow> 's \<times> effect list \<Rightarrow> 's \<times> ('t \<times> effect) list" where
  "tag t r = (fst r, map (Pair t) (snd r))"

fun client_step :: "client_state \<Rightarrow> client_event \<Rightarrow> client_state \<times> (client_thread \<times> effect) list" where
  "client_step s Announce = tag TAnnounce (client_announce s)"
| "client_step s (ClientRecv r) =
     tag TClient (case c_pc s of CDiscover \<Rightarrow> client_discover r s | CRun \<Rightarrow> client_forward r s)"
| "client_step s Punch =
     (case c_pc s of CDiscover \<Rightarrow> (s, []) | CRun \<Rightarrow> tag TPunch (client_punch s))"

fun client_run :: "client_state \<Rightarrow> client_event list \<Rightarrow> client_state \<times> (client_thread \<times> effect) list" where
  "client_run s [] = (s, [])"
| "client_run s (e # es) =
     (let (s1, tr1) = client_step s e; (s2, tr2) = client_run s1 es in (s2, tr1 @ tr2))"

subsection \<open>The server\<close>

text \<open>\<open>addrValue\<close>: the peer's own loopback socket and the time of its last datagram.\<close>

record addrValue =
  av_c :: nat
  av_last :: time

text \<open>
  A per-peer goroutine, with the variables its closure holds: \<open>cLocal\<close>, \<open>addrKey\<close>
  and \<open>addr\<close>.
\<close>

record task =
  t_cLocal :: nat
  t_addrKey :: addrKey
  t_addr :: UDPAddr

text \<open>
  Where the main goroutine stands: before \<open><-chIp\<close>, at the top of an iteration of the
  forwarding loop (before the sweep), or inside \<open>c.ReadFromUDP\<close>.
\<close>

datatype main_pc = MWait | MTop | MRead

text \<open>
  The maps \<open>mappings\<close> and \<open>peers\<close> are association lists with one entry per key; a
  \<open>range\<close> over a map visits the entries in the order of the list (Go leaves the order
  open).
\<close>

record server_state =
  s_port :: int
  s_relayAddr :: UDPAddr
  mappings :: "(addrKey \<times> time) list"
  ka_flushTime :: time
  ipReceived :: bool
  relay_returned :: bool
  chIp_closed :: bool
  main_at :: main_pc
  flushTime :: time
  peers :: "(addrKey \<times> addrValue) list"
  tasks :: "task list"
  next_sock :: nat
  exited :: bool

text \<open>
  The state after startup (the public socket bound, the relay resolved), the three
  goroutines launched; \<open>t0\<close> is the keepalive goroutine's first reading of the clock.
\<close>

definition server_init :: "UDPAddr \<Rightarrow> int \<Rightarrow> time \<Rightarrow> server_state" where
  "server_init relay prt t0 =
     \<lparr>s_port = prt, s_relayAddr = relay, mappings = [], ka_flushTime = t0,
      ipReceived = False, relay_returned = False, chIp_closed = False,
      main_at = MWait, flushTime = 0, peers = [], tasks = [], next_sock = 0,
      exited = False\<rparr>"

definition s_localAddr :: "server_state \<Rightarrow> UDPAddr" where
  "s_localAddr s = \<lparr>IP = [127, 0, 0, 1], Port = s_port s\<rparr>"

definition server_relayPayload :: "server_state \<Rightarrow> byte list" where
  "server_relayPayload s = [word_of_int (s_port s div 256), word_of_int (s_port s)]"

text \<open>\<open>now.Sub(v) > flushInterval\<close>\<close>

definition expired :: "time \<Rightarrow> time \<Rightarrow> bool" where
  "expired now v = (now - v > flushInterval)"

text \<open>
  One iteration of the keepalive goroutine: \<open>now\<close> is the reading at the top, \<open>tend\<close>
  the one that computes the sleep.
\<close>

definition keepalive :: "time \<Rightarrow> time \<Rightarrow> server_state \<Rightarrow> server_state \<times> effect list" where
  "keepalive now tend s =
     (let s1 = (if expired now (ka_flushTime s)
                then s\<lparr>mappings := filter (\<lambda>(k, v). \<not> expired now v) (mappings s),
                       ka_flushTime := now\<rparr>
                else s);
          d = 500 * Millisecond - (tend - now)
      in (s1, WriteToUDP Public (server_relayPayload s) (s_relayAddr s)
              # map (\<lambda>(k, v). WriteToUDP Public punchPayload (toUDP k)) (mappings s1)
              @ (if d > 0 then [Sleep d] else [])))"

text \<open>
  The inner loop of the relay receive goroutine, \<open>i := 4; for i < n { ...; i += 6 }\<close>;
  \<open>clk i\<close> is the reading of the clock for the record at offset \<open>i\<close>.
\<close>

function store_records ::
  "byte list \<Rightarrow> nat \<Rightarrow> nat \<Rightarrow> (nat \<Rightarrow> time) \<Rightarrow> (addrKey \<times> time) list \<Rightarrow> (addrKey \<times> time) list" where
  "store_records buffer i n clk m =
     (if i < n
      then store_records buffer (i + 6) n clk
             (AList.update \<lparr>ip = take 4 (drop (i + 2) buffer),
                            port = BigEndian_Uint16 (take 2 (drop i buffer))\<rparr> (clk i) m)
      else m)"
  by pat_completeness auto
termination
  by (relation "measure (\<lambda>(buffer, i, n, clk, m). n - i)") auto

declare store_records.simps [simp del]

text \<open>
  One iteration of the relay receive goroutine. The loop ends with \<open>break\<close> after the
  first frame of a valid size: the goroutine returns.
\<close>

definition relay_recv :: "recv \<Rightarrow> (nat \<Rightarrow> time) \<Rightarrow> server_state \<Rightarrow> server_state \<times> effect list" where
  "relay_recv r clk s =
     (case ReadFromUDP 4096 r of
        None \<Rightarrow> (s, [])
      | Some (b, addr) \<Rightarrow>
          if IP addr \<noteq> IP (s_relayAddr s) \<or> Port addr \<noteq> Port (s_relayAddr s) then (s, [])
          else if length b < 4 \<or> length b mod 6 \<noteq> 4 then (s, [Stderr (RelayWrongSize (length b))])
          else
            let buffer = (if \<not> ipReceived s
                          then map (\<lambda>v. v XOR 0xCC) (take 4 b) @ drop 4 b else b);
                es = (if \<not> ipReceived s
                      then [Println (Connected (take 4 buffer) (s_port s)), CloseChIp] else []);
                s1 = (if \<not> ipReceived s then s\<lparr>ipReceived := True, chIp_closed := True\<rparr> else s)
            in (s1\<lparr>mappings := store_records buffer 4 (length b) clk (mappings s1),
                   relay_returned := True\<rparr>, es))"

text \<open>The main goroutine passes \<open><-chIp\<close> and reads the clock into \<open>flushTime\<close>.\<close>

definition main_start :: "time \<Rightarrow> server_state \<Rightarrow> server_state \<times> effect list" where
  "main_start now s = (s\<lparr>flushTime := now, main_at := MTop\<rparr>, [])"

text \<open>The top of an iteration of the forwarding loop: the sweep of the idle peers.\<close>

definition main_sweep :: "time \<Rightarrow> server_state \<Rightarrow> server_state \<times> effect list" where
  "main_sweep now s =
     (if expired now (flushTime s)
      then (s\<lparr>flushTime := now,
              peers := filter (\<lambda>(k, v). \<not> expired now (av_last v)) (peers s)\<rparr>,
            concat (map (\<lambda>(k, v). if expired now (av_last v)
                                   then [Println (PeerTimeout (IP (toUDP k))), PeersDelete k,
                                         Close (Loop (av_c v))]
                                   else []) (peers s)))
      else (s, []))"

text \<open>
  The rest of the iteration, from the return of \<open>c.ReadFromUDP(buffer[1:])\<close>: \<open>now\<close> is the
  reading of the clock stored in the peer's record, \<open>listen_ok\<close> whether \<open>net.ListenUDP\<close>
  succeeds when it is called.
\<close>

definition main_recv :: "recv \<Rightarrow> time \<Rightarrow> bool \<Rightarrow> server_state \<Rightarrow> server_state \<times> effect list" where
  "main_recv r now listen_ok s =
     (case ReadFromUDP (4096 - 1) r of
        None \<Rightarrow> (s, [])
      | Some (b, addr) \<Rightarrow>
          if length b > 4096 - 1 then (s, [Stderr (PeerWrongSize (length b))])
          else if IP addr = IP (s_relayAddr s) \<and> Port addr = Port (s_relayAddr s) then (s, [])
          else
            (case map_of (peers s) (newAddrKey addr) of
               Some v \<Rightarrow>
                 (s\<lparr>peers := AList.update (newAddrKey addr) (v\<lparr>av_last := now\<rparr>) (peers s)\<rparr>,
                  if length b \<noteq> 0 \<and> hd b = 0xCC
                  then [WriteToUDP (Loop (av_c v)) (tl b) (s_localAddr s)] else [])
             | None \<Rightarrow>
                 if \<not> listen_ok then (s\<lparr>exited := True\<rparr>, [Println (NewPeer (IP addr)), Fatal])
                 else
                   (s\<lparr>peers := AList.update (newAddrKey addr)
                                 \<lparr>av_c = next_sock s, av_last = now\<rparr> (peers s),
                      tasks := tasks s @ [\<lparr>t_cLocal = next_sock s,
                                           t_addrKey = newAddrKey addr, t_addr = addr\<rparr>],
                      next_sock := Suc (next_sock s)\<rparr>,
                    [Println (NewPeer (IP addr)), ListenUDP (Loop (next_sock s))])))"

text \<open>
  One iteration of a per-peer goroutine, from the return of
  \<open>cLocal.ReadFromUDP(buffer[1:])\<close>. On an error the goroutine returns.
\<close>

definition peer_recv :: "task \<Rightarrow> recv \<Rightarrow> server_state \<Rightarrow> server_state \<times> effect list" where
  "peer_recv tk r s =
     (case ReadFromUDP (4096 - 1) r of
        None \<Rightarrow>
          (let s1 = s\<lparr>tasks := filter (\<lambda>x. t_cLocal x \<noteq> t_cLocal tk) (tasks s)\<rparr>
           in if map_of (peers s) (t_addrKey tk) \<noteq> None
              then (s1\<lparr>peers := AList.delete (t_addrKey tk) (peers s)\<rparr>,
                    [Stderr (PeerReadFailed (t_addr tk)), Close (Loop (t_cLocal tk)),
                     PeersDelete (t_addrKey tk)])
              else (s1, []))
      | Some (b, from) \<Rightarrow>
          if length b > 4096 - 1 then (s, [Stderr (GameServerWrongSize (length b))])
          else (s, [WriteToUDP Public (0xCC # b) (t_addr tk)]))"

datatype server_thread = TKeepalive | TRelay | TMain | TPeer nat

datatype server_event =
    Keepalive time time
  | RelayRecv recv "nat \<Rightarrow> time"
  | MainStart time
  | MainSweep time
  | MainRecv recv time bool
  | PeerRecv nat recv

text \<open>
  One step of the server. After \<open>log.Fatal\<close> nothing runs. The relay receive goroutine
  takes no event once it has returned; the main goroutine takes \<open>MainStart\<close> only when
  \<open>chIp\<close> is closed, and then alternates between the sweep and the receive.
\<close>

fun server_step :: "server_state \<Rightarrow> server_event \<Rightarrow> server_state \<times> (server_thread \<times> effect) list" where
  "server_step s (Keepalive now tend) =
     (if exited s then (s, []) else tag TKeepalive (keepalive now tend s))"
| "server_step s (RelayRecv r clk) =
     (if exited s \<or> relay_returned s then (s, []) else tag TRelay (relay_recv r clk s))"
| "server_step s (MainStart now) =
     (if exited s \<or> main_at s \<noteq> MWait \<or> \<not> chIp_closed s then (s, [])
      else tag TMain (main_start now s))"
| "server_step s (MainSweep now) =
     (if exited s \<or> main_at s \<noteq> MTop then (s, [])
      else tag TMain (main_sweep now (s\<lparr>main_at := MRead\<rparr>)))"
| "server_step s (MainRecv r now listen_ok) =
     (if exited s \<or> main_at s \<noteq> MRead then (s, [])
      else tag TMain (main_recv r now listen_ok (s\<lparr>main_at := MTop\<rparr>)))"
| "server_step s (PeerRecv i r) =
     (if exited s then (s, [])
      else case find (\<lambda>x. t_cLocal x = i) (tasks s) of
             None \<Rightarrow> (s, [])
           | Some tk \<Rightarrow> tag (TPeer i) (peer_recv tk r s))"

fun server_run :: "server_state \<Rightarrow> server_event list \<Rightarrow> server_state \<times> (server_thread \<times> effect) list" where
  "server_run s [] = (s, [])"
| "server_run s (e # es) =
     (let (s1, tr1) = server_step s e; (s2, tr2) = server_run s1 es in (s2, tr1 @ tr2))"

subsection \<open>Concrete endpoints and frames\<close>

text \<open>
  The relay \<open>R\<close>, the peer 198.51.100.9:10000, and the two relay frames of the server
  scenarios: the first reply (the server's own address 2.0.0.1, no record) and a later
  frame that carries the record of the peer.
\<close>

definition relayR :: UDPAddr where
  "relayR = \<lparr>IP = [192, 0, 2, 1], Port = 14762\<rparr>"

definition peerA :: UDPAddr where
  "peerA = \<lparr>IP = [198, 51, 100, 9], Port = 10000\<rparr>"

definition frame_own_ip :: "byte list" where
  "frame_own_ip = [0xCE, 0xCC, 0xCC, 0xCD]"

definition frame_with_peer :: "byte list" where
  "frame_with_peer = [0xCE, 0xCC, 0xCC, 0xCD, 0x27, 0x10, 198, 51, 100, 9]"

text \<open>The server with port 7000 after the first reply, its main loop blocked in the receive.\<close>

definition server_ready :: server_state where
  "server_ready =
     fst (server_run (server_init relayR 7000 0)
            [Keepalive 0 0, RelayRecv (Recv frame_own_ip relayR) (\<lambda>i. Millisecond),
             MainStart (2 * Millisecond), MainSweep (2 * Millisecond)])"

text \<open>The same server after the first datagram of the peer has created its record.\<close>

definition server_with_peer :: server_state where
  "server_with_peer =
     fst (server_run server_ready
            [MainRecv (Recv [0xCD] peerA) (3 * Millisecond) True, MainSweep (3 * Millisecond)])"

subsection \<open>Reading a schedule\<close>

text \<open>
  The frame that an event hands to the relay receive goroutine, when it comes from the
  relay and has a valid size (at least 4 and congruent to 4 modulo 6).
\<close>

fun relay_reply :: "UDPAddr \<Rightarrow> server_event \<Rightarrow> byte list option" where
  "relay_reply relay (RelayRecv (Recv p a) clk) =
     (if IP a = IP relay \<and> Port a = Port relay
         \<and> \<not> (length (take 4096 p) < 4 \<or> length (take 4096 p) mod 6 \<noteq> 4)
      then Some (take 4096 p) else None)"
| "relay_reply relay e = None"

text \<open>The server before the first valid reply of the relay.\<close>

definition discovering :: "server_state \<Rightarrow> bool" where
  "discovering s =
     (\<not> chIp_closed s \<and> \<not> ipReceived s \<and> \<not> relay_returned s \<and> \<not> exited s
      \<and> main_at s = MWait \<and> mappings s = [])"

definition clock_1ms :: "nat \<Rightarrow> time" where
  "clock_1ms i = Millisecond"


text \<open>
  The event is the first datagram of a new peer, and \<open>net.ListenUDP\<close> fails for its
  loopback socket.
\<close>

fun listen_fails :: "server_state \<Rightarrow> server_event \<Rightarrow> bool" where
  "listen_fails s (MainRecv (Recv p a) now listen_ok) =
     (\<not> listen_ok \<and> main_at s = MRead
      \<and> \<not> (IP a = IP (s_relayAddr s) \<and> Port a = Port (s_relayAddr s))
      \<and> map_of (peers s) (newAddrKey a) = None)"
| "listen_fails s e = False"

text \<open>The events in which \<open>net.ListenUDP\<close>, if it is called, succeeds.\<close>

fun listen_succeeds :: "server_event \<Rightarrow> bool" where
  "listen_succeeds (MainRecv r now listen_ok) = listen_ok"
| "listen_succeeds e = True"

definition clock_500ms :: "nat \<Rightarrow> time" where
  "clock_500ms i = 500 * Millisecond"

text \<open>
  A server whose mapping table holds the peer, advertised at 0.5 s, after the sweep of the
  keepalive pass at 10.001 s (the first pass more than 10 s after the start at 0).
\<close>

definition server_swept :: server_state where
  "server_swept =
     fst (server_run (server_init relayR 7000 0)
            [RelayRecv (Recv frame_with_peer relayR) clock_500ms,
             Keepalive (10001 * Millisecond) (10001 * Millisecond)])"

text \<open>The same table before that sweep.\<close>

definition server_mapped :: server_state where
  "server_mapped =
     fst (server_run (server_init relayR 7000 0)
            [RelayRecv (Recv frame_with_peer relayR) clock_500ms])"


subsection \<open>Reading a schedule of the client\<close>

text \<open>
  The reply that an event hands to the main goroutine of the client, when it comes from the
  relay and has two bytes.
\<close>

fun client_reply :: "UDPAddr \<Rightarrow> client_event \<Rightarrow> byte list option" where
  "client_reply relay (ClientRecv (Recv p a)) =
     (if IP a = IP relay \<and> Port a = Port relay \<and> length (take 4096 p) = 2
      then Some (take 4096 p) else None)"
| "client_reply relay e = None"

text \<open>
  The client of the scenarios: host 203.0.113.7, port 34000; then the same client after the
  relay's reply \<open>[0xC3, 0x50]\<close> (port 50000); the local application is 127.0.0.1:62000.
\<close>

definition client_start :: client_state where
  "client_start = client_init relayR [203, 0, 113, 7] 34000"

definition client_running :: client_state where
  "client_running = fst (client_run client_start [Announce, ClientRecv (Recv [0xC3, 0x50] relayR)])"

definition appL :: UDPAddr where
  "appL = \<lparr>IP = [127, 0, 0, 1], Port = 62000\<rparr>"

text \<open>A client whose remote host is the local machine, after the same reply.\<close>

definition client_remote_on_loopback :: client_state where
  "client_remote_on_loopback =
     fst (client_run (client_init relayR [127, 0, 0, 1] 34000)
            [ClientRecv (Recv [0xC3, 0x50] relayR)])"

text \<open>
  A client whose remote endpoint is the relay's own endpoint (the relay answers with its own
  port, 14762), after the local application has sent a first datagram.
\<close>

definition client_remote_is_relay :: client_state where
  "client_remote_is_relay =
     fst (client_run (client_init relayR [192, 0, 2, 1] 34000)
            [ClientRecv (Recv [0x39, 0xAA] relayR), ClientRecv (Recv [9] appL)])"

text \<open>The running client after the local application has sent \<open>[1, 2]\<close>.\<close>

definition client_with_app :: client_state where
  "client_with_app = fst (client_run client_running [ClientRecv (Recv [1, 2] appL)])"

text \<open>
  After the first reply: the relay sends the frame with the peer's record. The main
  goroutine is the one that reads the public socket now; the event is also offered to the
  relay receive goroutine, which has returned.
\<close>

definition later_frame_schedule :: "server_event list" where
  "later_frame_schedule =
     [MainRecv (Recv frame_with_peer relayR) (3 * Millisecond) True,
      RelayRecv (Recv frame_with_peer relayR) clock_1ms,
      MainSweep (4 * Millisecond),
      Keepalive (500 * Millisecond) (500 * Millisecond)]"

text \<open>
  The peer has been silent for 11 s. A datagram of the relay ends the receive; the sweep at
  the top of the next iteration evicts the peer and closes its socket; the next datagram
  read is the peer's, which makes it a new peer; only then does the goroutine of the old
  socket see its read fail.
\<close>

definition reconnect_schedule :: "server_event list" where
  "reconnect_schedule =
     [MainRecv (Recv [1, 2] relayR) (11 * Second) True,
      MainSweep (11 * Second),
      MainRecv (Recv [0xCD] peerA) (11 * Second) True,
      PeerRecv 0 RecvErr]"

section \<open>Basic facts\<close>

lemmas server_defs =
  server_init_def tag_def keepalive_def relay_recv_def main_start_def main_sweep_def
  main_recv_def peer_recv_def expired_def flushInterval_def Second_def Millisecond_def
  server_relayPayload_def store_records.simps s_localAddr_def newAddrKey_def toUDP_def
  punchPayload_def relayR_def peerA_def frame_own_ip_def frame_with_peer_def

lemma fst_tag [simp]: "fst (tag t r) = fst r"
  by (simp add: tag_def)

lemma snd_tag [simp]: "snd (tag t r) = map (Pair t) (snd r)"
  by (simp add: tag_def)

lemma newAddrKey_eq_iff: "newAddrKey a = newAddrKey b \<longleftrightarrow> IP a = IP b \<and> Port a = Port b"
  by (auto simp: newAddrKey_def)

lemma toUDP_newAddrKey: "toUDP (newAddrKey (a :: UDPAddr)) = a"
  by (simp add: toUDP_def newAddrKey_def)

lemma fst_server_run_Cons:
  "fst (server_run s (e # es)) = fst (server_run (fst (server_step s e)) es)"
  by (simp add: split_beta)

lemma snd_server_run_Cons:
  "snd (server_run s (e # es)) =
     snd (server_step s e) @ snd (server_run (fst (server_step s e)) es)"
  by (simp add: split_beta)

lemma server_ready_eq:
  "server_ready =
     \<lparr>s_port = 7000, s_relayAddr = relayR, mappings = [], ka_flushTime = 0,
      ipReceived = True, relay_returned = True, chIp_closed = True, main_at = MRead,
      flushTime = 2000000, peers = [], tasks = [], next_sock = 0, exited = False\<rparr>"
  by (simp add: server_ready_def server_defs)

lemma server_with_peer_eq:
  "server_with_peer =
     \<lparr>s_port = 7000, s_relayAddr = relayR, mappings = [], ka_flushTime = 0,
      ipReceived = True, relay_returned = True, chIp_closed = True, main_at = MRead,
      flushTime = 2000000,
      peers = [(\<lparr>ip = [198, 51, 100, 9], port = 10000\<rparr>, \<lparr>av_c = 0, av_last = 3000000\<rparr>)],
      tasks = [\<lparr>t_cLocal = 0, t_addrKey = \<lparr>ip = [198, 51, 100, 9], port = 10000\<rparr>,
                t_addr = peerA\<rparr>],
      next_sock = 1, exited = False\<rparr>"
  by (simp add: server_with_peer_def server_ready_eq server_defs)

subsection \<open>The relay endpoint is never a peer\<close>

text \<open>
  The forwarding loop drops the datagrams of the relay before it looks at the peer table,
  so the relay's endpoint never becomes a key of \<open>peers\<close>.
\<close>

lemma s_relayAddr_step: "s_relayAddr (fst (server_step s e)) = s_relayAddr s"
  by (cases e)
    (auto simp: keepalive_def relay_recv_def main_start_def main_sweep_def main_recv_def
      peer_recv_def Let_def split: option.splits prod.splits)

lemma map_of_filter_None: "map_of al k = None \<Longrightarrow> map_of (filter P al) k = None"
  by (induction al) auto

lemma relay_not_peer_step:
  assumes "map_of (peers s) (newAddrKey (s_relayAddr s)) = None"
  shows "map_of (peers (fst (server_step s e))) (newAddrKey (s_relayAddr s)) = None"
  using assms
  by (cases e)
    (auto simp: keepalive_def relay_recv_def main_start_def main_sweep_def main_recv_def
      peer_recv_def Let_def update_conv' delete_conv' map_of_filter_None newAddrKey_eq_iff
      split: option.splits prod.splits)

lemma relay_not_peer_run:
  "map_of (peers s) (newAddrKey (s_relayAddr s)) = None \<Longrightarrow>
   map_of (peers (fst (server_run s es))) (newAddrKey (s_relayAddr s)) = None
   \<and> s_relayAddr (fst (server_run s es)) = s_relayAddr s"
proof (induction es arbitrary: s)
  case Nil
  then show ?case by simp
next
  case (Cons e es)
  let ?s1 = "fst (server_step s e)"
  have r: "s_relayAddr ?s1 = s_relayAddr s"
    by (rule s_relayAddr_step)
  have "map_of (peers ?s1) (newAddrKey (s_relayAddr ?s1)) = None"
    using relay_not_peer_step [OF Cons.prems] r by simp
  from Cons.IH [OF this] show ?case
    by (simp only: fst_server_run_Cons r)
qed

section \<open>The claims\<close>

text \<open>
  C9. In the server, a datagram from an endpoint that is already a key of the peer table,
  and whose first byte is not 0xCC (the one-byte punch 0xCD, or an empty datagram), changes
  nothing but the last-activity time of that peer's record, which becomes the current time:
  the handler writes nothing (in particular nothing to the peer's loopback socket) and the
  keys of the peer table stay the same. The state is any state the server can reach.
\<close>

theorem existing_peer_untagged_updates_last_only:
  assumes "s = fst (server_run (server_init relay prt t0) sched)"
    and "map_of (peers s) (newAddrKey addr) = Some v"
    and "p = [] \<or> hd p \<noteq> 0xCC"
  shows "main_recv (Recv p addr) now listen_ok s =
           (s\<lparr>peers := AList.update (newAddrKey addr) (v\<lparr>av_last := now\<rparr>) (peers s)\<rparr>, [])
         \<and> fst ` set (peers (fst (main_recv (Recv p addr) now listen_ok s))) = fst ` set (peers s)"
proof -
  have "map_of (peers s) (newAddrKey (s_relayAddr s)) = None"
    using assms(1) relay_not_peer_run [of "server_init relay prt t0" sched]
    by (simp add: server_init_def)
  with assms(2) have nr: "\<not> (IP addr = IP (s_relayAddr s) \<and> Port addr = Port (s_relayAddr s))"
    by (auto simp: newAddrKey_def)
  have hdt: "take 4095 p = [] \<or> hd (take 4095 p) \<noteq> 0xCC"
    using assms(3) by (cases p) auto
  have k: "newAddrKey addr \<in> fst ` set (peers s)"
    using assms(2) by (metis domI dom_map_of_conv_image_fst)
  have eq: "main_recv (Recv p addr) now listen_ok s =
           (s\<lparr>peers := AList.update (newAddrKey addr) (v\<lparr>av_last := now\<rparr>) (peers s)\<rparr>, [])"
    using nr hdt assms(2) by (auto simp: main_recv_def)
  show ?thesis using eq k by (auto simp: dom_update)
qed

theorem existing_peer_untagged_updates_last_only_witness:
  "map_of (peers server_with_peer) (newAddrKey peerA) = Some \<lparr>av_c = 0, av_last = 3000000\<rparr>
   \<and> main_recv (Recv [0xCD] peerA) 4000000 True server_with_peer =
       (server_with_peer\<lparr>peers := [(newAddrKey peerA, \<lparr>av_c = 0, av_last = 4000000\<rparr>)]\<rparr>, [])"
proof -
  have s: "server_with_peer =
      fst (server_run (server_init relayR 7000 0)
        ([Keepalive 0 0, RelayRecv (Recv frame_own_ip relayR) (\<lambda>i. Millisecond),
          MainStart (2 * Millisecond), MainSweep (2 * Millisecond)] @
         [MainRecv (Recv [0xCD] peerA) (3 * Millisecond) True, MainSweep (3 * Millisecond)]))"
    by (simp add: server_with_peer_eq server_defs)
  have v: "map_of (peers server_with_peer) (newAddrKey peerA) = Some \<lparr>av_c = 0, av_last = 3000000\<rparr>"
    by (simp add: server_with_peer_eq server_defs)
  have p: "[0xCD :: byte] = [] \<or> hd [0xCD :: byte] \<noteq> 0xCC"
    by simp
  show ?thesis
    using existing_peer_untagged_updates_last_only [OF s v p, of 4000000 True] v
    by (simp add: server_with_peer_eq server_defs)
qed

subsection \<open>Before and after the first reply of the relay\<close>

lemma s_port_step: "s_port (fst (server_step s e)) = s_port s"
  by (cases e)
    (auto simp: keepalive_def relay_recv_def main_start_def main_sweep_def main_recv_def
      peer_recv_def Let_def split: option.splits prod.splits)

lemma discovering_step:
  "discovering (fst (server_step s e))"
  if "discovering s" "relay_reply (s_relayAddr s) e = None"
proof (cases e)
  case (RelayRecv r clk)
  then show ?thesis using that
    by (cases r) (auto simp: discovering_def relay_recv_def Let_def split: if_splits)
qed (use that in \<open>auto simp: discovering_def keepalive_def main_start_def main_sweep_def
      main_recv_def peer_recv_def Let_def split: option.splits prod.splits\<close>)

lemma discovering_run:
  "discovering s \<Longrightarrow> \<forall>e\<in>set es. relay_reply (s_relayAddr s) e = None \<Longrightarrow>
   discovering (fst (server_run s es)) \<and> s_relayAddr (fst (server_run s es)) = s_relayAddr s
   \<and> s_port (fst (server_run s es)) = s_port s"
proof (induction es arbitrary: s)
  case Nil
  then show ?case by simp
next
  case (Cons e es)
  let ?s1 = "fst (server_step s e)"
  have r: "s_relayAddr ?s1 = s_relayAddr s" by (rule s_relayAddr_step)
  have p: "s_port ?s1 = s_port s" by (rule s_port_step)
  have d: "discovering ?s1" using Cons.prems by (simp add: discovering_step)
  have "\<forall>x\<in>set es. relay_reply (s_relayAddr ?s1) x = None" using Cons.prems r by simp
  from Cons.IH [OF d this] show ?case
    by (simp only: fst_server_run_Cons r p) 
qed

lemma chIp_closed_step:
  "chIp_closed s \<or> relay_reply (s_relayAddr s) e \<noteq> None"
  if "chIp_closed (fst (server_step s e))"
proof (cases e)
  case (RelayRecv r clk)
  then show ?thesis using that
    by (cases r) (auto simp: relay_recv_def Let_def split: if_splits)
qed (use that in \<open>auto simp: keepalive_def main_start_def main_sweep_def
      main_recv_def peer_recv_def Let_def split: option.splits prod.splits if_splits\<close>)

lemma started_step:
  "main_at s \<noteq> MWait \<longrightarrow> chIp_closed s \<Longrightarrow>
   main_at (fst (server_step s e)) \<noteq> MWait \<longrightarrow> chIp_closed (fst (server_step s e))"
  by (cases e)
    (auto simp: keepalive_def relay_recv_def main_start_def main_sweep_def main_recv_def
      peer_recv_def Let_def split: option.splits prod.splits if_splits)

lemma started_run:
  "main_at s \<noteq> MWait \<longrightarrow> chIp_closed s \<Longrightarrow>
   (main_at (fst (server_run s es)) \<noteq> MWait \<longrightarrow> chIp_closed (fst (server_run s es)))
   \<and> (chIp_closed (fst (server_run s es)) \<longrightarrow>
        chIp_closed s \<or> (\<exists>e\<in>set es. relay_reply (s_relayAddr s) e \<noteq> None))"
proof (induction es arbitrary: s)
  case Nil
  then show ?case by simp
next
  case (Cons e es)
  let ?s1 = "fst (server_step s e)"
  have r: "s_relayAddr ?s1 = s_relayAddr s" by (rule s_relayAddr_step)
  have j: "main_at ?s1 \<noteq> MWait \<longrightarrow> chIp_closed ?s1"
    using Cons.prems by (rule started_step)
  have c: "chIp_closed ?s1 \<longrightarrow> chIp_closed s \<or> relay_reply (s_relayAddr s) e \<noteq> None"
    using chIp_closed_step by blast
  from Cons.IH [OF j] c show ?case
    by (simp only: fst_server_run_Cons r) auto
qed

lemma first_reply_effects:
  assumes "discovering s" and "relay_reply (s_relayAddr s) e = Some b"
  shows "snd (server_step s e) =
           [(TRelay, Println (Connected (map (\<lambda>v. v XOR 0xCC) (take 4 b)) (s_port s))),
            (TRelay, CloseChIp)]
         \<and> chIp_closed (fst (server_step s e)) \<and> main_at (fst (server_step s e)) = MWait
         \<and> \<not> exited (fst (server_step s e))"
proof (cases e)
  case (RelayRecv r clk)
  then show ?thesis using assms
    by (cases r) (auto simp: discovering_def relay_recv_def Let_def split: if_splits)
qed (use assms in auto)

lemma fst_server_run_append:
  "fst (server_run s (xs @ ys)) = fst (server_run (fst (server_run s xs)) ys)"
  by (induction xs arbitrary: s) (simp_all add: split_beta)

text \<open>
  C6. In the server, on every schedule: (1) when the main goroutine has left its wait for
  \<open>chIp\<close> (the forwarding loop has started), the schedule holds a valid reply of the relay,
  read by the relay receive goroutine; (2) as long as no valid reply has been read, an
  iteration of the keepalive goroutine sends the announcement to the relay, so the
  rendezvous loop runs before the reply; (3) the first valid reply prints the server's
  public address as the first four bytes of the frame, each XOR-ed with 0xCC, closes
  \<open>chIp\<close>, and the main goroutine then enters the forwarding loop.
\<close>

theorem forwarding_starts_after_first_relay_reply:
  "(main_at (fst (server_run (server_init relay prt t0) sched)) \<noteq> MWait \<longrightarrow>
      (\<exists>e\<in>set sched. relay_reply relay e \<noteq> None))
   \<and> ((\<forall>x\<in>set pre. relay_reply relay x = None) \<longrightarrow>
        (TKeepalive, WriteToUDP Public (server_relayPayload (server_init relay prt t0)) relay)
          \<in> set (snd (server_step (fst (server_run (server_init relay prt t0) pre)) (Keepalive now tend)))
        \<and> (\<forall>b. relay_reply relay e = Some b \<longrightarrow>
              snd (server_step (fst (server_run (server_init relay prt t0) pre)) e) =
                [(TRelay, Println (Connected (map (\<lambda>v. v XOR 0xCC) (take 4 b)) prt)),
                 (TRelay, CloseChIp)]
              \<and> main_at (fst (server_run (server_init relay prt t0) (pre @ [e, MainStart t]))) = MTop))"
proof -
  let ?i = "server_init relay prt t0"
  have di: "discovering ?i" by (simp add: discovering_def server_init_def)
  have ri: "s_relayAddr ?i = relay" "s_port ?i = prt" by (simp_all add: server_init_def)
  have A: "main_at (fst (server_run ?i sched)) \<noteq> MWait \<longrightarrow> (\<exists>e\<in>set sched. relay_reply relay e \<noteq> None)"
    using started_run [of ?i sched] by (auto simp: server_init_def)
  have B: "(TKeepalive, WriteToUDP Public (server_relayPayload ?i) relay)
          \<in> set (snd (server_step (fst (server_run ?i pre)) (Keepalive now tend)))
        \<and> (\<forall>b. relay_reply relay e = Some b \<longrightarrow>
              snd (server_step (fst (server_run ?i pre)) e) =
                [(TRelay, Println (Connected (map (\<lambda>v. v XOR 0xCC) (take 4 b)) prt)),
                 (TRelay, CloseChIp)]
              \<and> main_at (fst (server_run ?i (pre @ [e, MainStart t]))) = MTop)"
    if np: "\<forall>x\<in>set pre. relay_reply relay x = None"
  proof -
    let ?s = "fst (server_run ?i pre)"
    have d: "discovering ?s" "s_relayAddr ?s = relay" "s_port ?s = prt"
      using discovering_run [OF di, of pre] np ri by auto
    have k: "(TKeepalive, WriteToUDP Public (server_relayPayload ?i) relay)
          \<in> set (snd (server_step ?s (Keepalive now tend)))"
      using d by (simp add: discovering_def keepalive_def Let_def server_relayPayload_def ri)
    have f: "snd (server_step ?s e) =
                [(TRelay, Println (Connected (map (\<lambda>v. v XOR 0xCC) (take 4 b)) prt)),
                 (TRelay, CloseChIp)]
              \<and> main_at (fst (server_run ?i (pre @ [e, MainStart t]))) = MTop"
      if rb: "relay_reply relay e = Some b" for b
    proof -
      note fe = first_reply_effects [OF d(1), of e b, unfolded d(2) d(3), OF rb]
      have "main_at (fst (server_step (fst (server_step ?s e)) (MainStart t))) = MTop"
        using fe by (simp add: main_start_def)
      moreover have "fst (server_run ?i (pre @ [e, MainStart t])) =
          fst (server_step (fst (server_step ?s e)) (MainStart t))"
        by (simp only: fst_server_run_append fst_server_run_Cons server_run.simps(1) fst_conv)
      ultimately show ?thesis using fe by simp
    qed
    show ?thesis using k f by blast
  qed
  show ?thesis using A B by blast
qed

theorem forwarding_starts_after_first_relay_reply_witness:
  "relay_reply relayR (Keepalive 0 0) = None
   \<and> relay_reply relayR (RelayRecv (Recv frame_own_ip relayR) clock_1ms) = Some frame_own_ip
   \<and> (TKeepalive, WriteToUDP Public [0x1B, 0x58] relayR)
        \<in> set (snd (server_step (fst (server_run (server_init relayR 7000 0) [Keepalive 0 0]))
                     (Keepalive (500 * Millisecond) (500 * Millisecond))))
   \<and> snd (server_step (fst (server_run (server_init relayR 7000 0) [Keepalive 0 0]))
          (RelayRecv (Recv frame_own_ip relayR) clock_1ms)) =
       [(TRelay, Println (Connected [2, 0, 0, 1] 7000)), (TRelay, CloseChIp)]
   \<and> main_at (fst (server_run (server_init relayR 7000 0)
        ([Keepalive 0 0] @ [RelayRecv (Recv frame_own_ip relayR) clock_1ms, MainStart (2 * Millisecond)])))
       = MTop"
proof -
  have n: "\<forall>x\<in>set [Keepalive 0 0]. relay_reply relayR x = None"
    by simp
  have r: "relay_reply relayR (RelayRecv (Recv frame_own_ip relayR) clock_1ms) = Some frame_own_ip"
    by (simp add: frame_own_ip_def)
  have x: "map (\<lambda>v. v XOR 0xCC) (take 4 frame_own_ip) = [2, 0, 0, 1 :: byte]"
    by (simp add: frame_own_ip_def)
  have p: "server_relayPayload (server_init relayR 7000 0) = [0x1B, 0x58]"
    by (simp add: server_relayPayload_def server_init_def)
  from forwarding_starts_after_first_relay_reply
    [of relayR 7000 0
        "[Keepalive 0 0] @ [RelayRecv (Recv frame_own_ip relayR) clock_1ms, MainStart (2 * Millisecond)]"
        "[Keepalive 0 0]" "500 * Millisecond" "500 * Millisecond"
        "RelayRecv (Recv frame_own_ip relayR) clock_1ms" "2 * Millisecond"]
  show ?thesis
    using n r by (simp only: x p) simp
qed

subsection \<open>While the main goroutine is blocked in its receive\<close>







subsection \<open>Leaving the process\<close>

lemma exited_step:
  assumes "\<not> exited s"
  shows "exited (fst (server_step s e)) = listen_fails s e"
proof (cases e)
  case (MainRecv r now ok)
  then show ?thesis using assms
    by (cases r) (auto simp: main_recv_def split: option.splits)
qed (use assms in \<open>auto simp: keepalive_def relay_recv_def main_start_def main_sweep_def
      peer_recv_def Let_def split: option.splits prod.splits if_splits\<close>)

lemma listen_fails_succeeds: "listen_succeeds e \<Longrightarrow> \<not> listen_fails s e"
  by (cases "(s, e)" rule: listen_fails.cases) auto

lemma not_exited_run:
  "\<not> exited s \<Longrightarrow> \<forall>x\<in>set es. listen_succeeds x \<Longrightarrow> \<not> exited (fst (server_run s es))"
proof (induction es arbitrary: s)
  case Nil
  then show ?case by simp
next
  case (Cons e es)
  have "\<not> exited (fst (server_step s e))"
    using Cons.prems by (simp add: exited_step listen_fails_succeeds)
  from Cons.IH [OF this] Cons.prems(2) show ?case
    by (simp only: fst_server_run_Cons) simp
qed

lemma fatal_step:
  assumes "\<not> exited s"
  shows "(Fatal \<in> snd ` set (snd (server_step s e))) = listen_fails s e"
proof (cases e)
  case (Keepalive now tend)
  then show ?thesis using assms
    by (auto simp: keepalive_def Let_def)
next
  case (RelayRecv r clk)
  then show ?thesis using assms
    by (cases r) (auto simp: relay_recv_def Let_def)
next
  case (MainStart now)
  then show ?thesis using assms
    by (auto simp: main_start_def)
next
  case (MainSweep now)
  then show ?thesis using assms
    by (auto simp: main_sweep_def)
next
  case (MainRecv r now ok)
  then show ?thesis using assms
    by (cases r) (auto simp: main_recv_def split: option.splits)
next
  case (PeerRecv i r)
  then show ?thesis using assms
    by (cases r) (auto simp: peer_recv_def Let_def split: option.splits)
qed

lemma no_fatal_run:
  "\<not> exited s \<Longrightarrow> \<forall>x\<in>set es. listen_succeeds x \<Longrightarrow>
   Fatal \<notin> snd ` set (snd (server_run s es))"
proof (induction es arbitrary: s)
  case Nil
  then show ?case by simp
next
  case (Cons e es)
  have n: "\<not> exited (fst (server_step s e))"
    using Cons.prems by (simp add: exited_step listen_fails_succeeds)
  have f: "Fatal \<notin> snd ` set (snd (server_step s e))"
    using Cons.prems by (simp add: fatal_step listen_fails_succeeds)
  from Cons.IH [OF n] Cons.prems(2) f show ?case
    by (simp only: snd_server_run_Cons set_append image_Un) simp
qed

lemma client_discover_no_fatal: "Fatal \<notin> set (snd (client_discover r c))"
  by (cases r) (simp_all add: client_discover_def)

lemma client_forward_no_fatal: "Fatal \<notin> set (snd (client_forward r c))"
  by (cases r) (simp_all add: client_forward_def)

lemma client_step_no_fatal: "Fatal \<notin> snd ` set (snd (client_step c e))"
proof (cases e)
  case Announce
  then show ?thesis by (simp add: client_announce_def image_iff)
next
  case (ClientRecv r)
  then show ?thesis
    using client_discover_no_fatal [of r c] client_forward_no_fatal [of r c]
    by (cases "c_pc c") (auto simp: image_iff)
next
  case Punch
  then show ?thesis by (cases "c_pc c") (simp_all add: client_punch_def image_iff)
qed

lemma client_run_no_fatal: "Fatal \<notin> snd ` set (snd (client_run c es))"
proof (induction es arbitrary: c)
  case Nil
  then show ?case by simp
next
  case (Cons e es)
  have "snd (client_run c (e # es)) =
      snd (client_step c e) @ snd (client_run (fst (client_step c e)) es)"
    by (simp add: split_beta)
  then show ?case
    using client_step_no_fatal [of c e] Cons.IH [of "fst (client_step c e)"]
    by (simp only: set_append image_Un) simp
qed

text \<open>
  C4, as the code has it. The claim is false where it says that a failure to allocate the
  loopback socket of a new peer does not abort the engine: the forwarding loop calls
  \<open>log.Fatal\<close> there.
\<close>

theorem new_peer_listen_failure_exits:
  "exited server_ready = False
   \<and> server_step server_ready (MainRecv (Recv [0xCD] peerA) (3 * Millisecond) False) =
       (server_ready\<lparr>main_at := MTop, exited := True\<rparr>,
        [(TMain, Println (NewPeer [198, 51, 100, 9])), (TMain, Fatal)])"
  by (simp add: server_ready_eq server_defs)

text \<open>
  C4, amended. After startup, the only error that the code of the engine answers by ending
  the process is, in the server, the failure of \<open>net.ListenUDP\<close> for the loopback socket of a
  new peer (a first datagram whose source is not the relay and not yet in the peer table):
  the forwarding loop calls \<open>log.Fatal\<close>. No other event makes a handler do so: not a read
  error on any socket, not a frame of a wrong size, not a datagram of any content from any
  source; on a schedule without such a failure the server never exits and never calls
  \<open>log.Fatal\<close>, and the client never calls it on any schedule.

  The steps are whole iterations of the handlers. The source shares \<open>peers\<close> between the
  main goroutine and the per-peer goroutines without a lock; what an interleaving inside
  an iteration can do (the forwarding loop indexes the table a second time to store the
  time of the last datagram, after a per-peer goroutine may have deleted the record) is
  outside this statement, which neither promises nor denies it.
\<close>

theorem server_exits_only_on_listen_failure:
  "(\<not> exited s \<longrightarrow>
      exited (fst (server_step s e)) = listen_fails s e
      \<and> (Fatal \<in> snd ` set (snd (server_step s e))) = listen_fails s e)
   \<and> (\<not> exited s \<and> (\<forall>x\<in>set sched. listen_succeeds x) \<longrightarrow>
      \<not> exited (fst (server_run s sched)) \<and> Fatal \<notin> snd ` set (snd (server_run s sched)))
   \<and> Fatal \<notin> snd ` set (snd (client_run c csched))"
  using exited_step fatal_step not_exited_run no_fatal_run client_run_no_fatal by blast

theorem server_exits_only_on_listen_failure_witness:
  "exited server_ready = False
   \<and> listen_fails server_ready (MainRecv (Recv [0xCC, 1] peerA) (3 * Millisecond) True) = False
   \<and> exited (fst (server_step server_ready (MainRecv (Recv [0xCC, 1] peerA) (3 * Millisecond) True))) = False
   \<and> listen_fails server_ready (MainRecv (Recv [0xCC, 1] peerA) (3 * Millisecond) False) = True
   \<and> exited (fst (server_step server_ready (MainRecv (Recv [0xCC, 1] peerA) (3 * Millisecond) False))) = True
   \<and> Fatal \<in> snd ` set (snd (server_step server_ready
        (MainRecv (Recv [0xCC, 1] peerA) (3 * Millisecond) False)))
   \<and> listen_succeeds (MainRecv RecvErr (3 * Millisecond) True)
   \<and> listen_succeeds (PeerRecv 0 RecvErr)
   \<and> exited (fst (server_run server_ready
        [MainRecv RecvErr (3 * Millisecond) True, MainSweep (4 * Millisecond),
         MainRecv (Recv [0xCD] peerA) (5 * Millisecond) True, PeerRecv 0 RecvErr])) = False
   \<and> Fatal \<notin> snd ` set (snd (server_run server_ready
        [MainRecv RecvErr (3 * Millisecond) True, MainSweep (4 * Millisecond),
         MainRecv (Recv [0xCD] peerA) (5 * Millisecond) True, PeerRecv 0 RecvErr]))
   \<and> Fatal \<notin> snd ` set (snd (client_run client_start
        [Announce, ClientRecv RecvErr, ClientRecv (Recv [1, 2, 3] relayR),
         ClientRecv (Recv [0xC3, 0x50] relayR), Punch, ClientRecv RecvErr,
         ClientRecv (Recv [1, 2] appL)]))"
proof -
  have x: "\<not> exited server_ready"
    by (simp add: server_ready_eq)
  have l: "\<forall>x\<in>set [MainRecv RecvErr (3 * Millisecond) True, MainSweep (4 * Millisecond),
         MainRecv (Recv [0xCD] peerA) (5 * Millisecond) True, PeerRecv 0 RecvErr]. listen_succeeds x"
    by simp
  have f: "listen_fails server_ready (MainRecv (Recv [0xCC, 1] peerA) (3 * Millisecond) True) = False"
    by simp
  have g: "listen_fails server_ready (MainRecv (Recv [0xCC, 1] peerA) (3 * Millisecond) False) = True"
    by (simp add: server_ready_eq relayR_def peerA_def)
  from server_exits_only_on_listen_failure [of server_ready "MainRecv (Recv [0xCC, 1] peerA) (3 * Millisecond) True"
      "[MainRecv RecvErr (3 * Millisecond) True, MainSweep (4 * Millisecond),
         MainRecv (Recv [0xCD] peerA) (5 * Millisecond) True, PeerRecv 0 RecvErr]"
      client_start
      "[Announce, ClientRecv RecvErr, ClientRecv (Recv [1, 2, 3] relayR),
         ClientRecv (Recv [0xC3, 0x50] relayR), Punch, ClientRecv RecvErr,
         ClientRecv (Recv [1, 2] appL)]"]
    server_exits_only_on_listen_failure [of server_ready "MainRecv (Recv [0xCC, 1] peerA) (3 * Millisecond) False" "[]" client_start "[]"]
    x l f g
  show ?thesis by simp
qed

subsection \<open>The keepalive pass\<close>

lemma punch_in_keepalive:
  "WriteToUDP Public punchPayload a \<in> set (snd (keepalive now tend s)) \<longleftrightarrow>
   (\<exists>k v. (k, v) \<in> set (mappings (fst (keepalive now tend s))) \<and> a = toUDP k)"
  by (auto simp: keepalive_def Let_def server_relayPayload_def punchPayload_def image_iff
      split: prod.splits)

text \<open>
  C5, as the code has it. The claim is false: the mapping table is swept only at a pass
  that comes more than 10 s after the previous sweep. Here the entry of the peer is 9.5 s
  old at the sweep of 10.001 s and stays; at the pass of 11.001 s it is 10.5 s old, no sweep
  is due, and the peer is sent the punch packet.
\<close>

theorem stale_mapping_still_punched:
  "map_of (mappings server_swept) (newAddrKey peerA) = Some (500 * Millisecond)
   \<and> expired (11001 * Millisecond) (500 * Millisecond)
   \<and> (TKeepalive, WriteToUDP Public [0xCD] peerA)
       \<in> set (snd (server_step server_swept (Keepalive (11001 * Millisecond) (11001 * Millisecond))))"
  by (simp add: server_swept_def clock_500ms_def server_defs)

text \<open>
  C5, amended. A pass of the keepalive goroutine sweeps the mapping table only when more
  than 10 s have passed since the previous sweep (or since the goroutine started). At such
  a pass every entry older than 10 s is removed before the transmission, and the punch
  packet goes exactly to the endpoints of the entries that are not older than 10 s. At
  every other pass the table is left as it is and the punch packet goes to the endpoint of
  every entry, whatever its age.
\<close>

theorem keepalive_pass_sweeps_only_when_due:
  "(expired now (ka_flushTime s) \<longrightarrow>
      mappings (fst (keepalive now tend s)) = filter (\<lambda>(k, v). \<not> expired now v) (mappings s)
      \<and> (\<forall>a. WriteToUDP Public punchPayload a \<in> set (snd (keepalive now tend s)) \<longleftrightarrow>
              (\<exists>k v. (k, v) \<in> set (mappings s) \<and> \<not> expired now v \<and> a = toUDP k)))
   \<and> (\<not> expired now (ka_flushTime s) \<longrightarrow>
      mappings (fst (keepalive now tend s)) = mappings s
      \<and> (\<forall>a. WriteToUDP Public punchPayload a \<in> set (snd (keepalive now tend s)) \<longleftrightarrow>
              (\<exists>k v. (k, v) \<in> set (mappings s) \<and> a = toUDP k)))"
proof -
  have m1: "expired now (ka_flushTime s) \<Longrightarrow>
      mappings (fst (keepalive now tend s)) = filter (\<lambda>(k, v). \<not> expired now v) (mappings s)"
    by (simp add: keepalive_def Let_def)
  have m2: "\<not> expired now (ka_flushTime s) \<Longrightarrow> mappings (fst (keepalive now tend s)) = mappings s"
    by (simp add: keepalive_def Let_def)
  show ?thesis
    using m1 m2 by (auto simp: punch_in_keepalive)
qed

theorem keepalive_pass_sweeps_only_when_due_witness:
  "expired (10600 * Millisecond) (ka_flushTime server_mapped)
   \<and> mappings server_mapped = [(newAddrKey peerA, 500 * Millisecond)]
   \<and> mappings (fst (keepalive (10600 * Millisecond) (10600 * Millisecond) server_mapped)) = []
   \<and> WriteToUDP Public punchPayload peerA
        \<notin> set (snd (keepalive (10600 * Millisecond) (10600 * Millisecond) server_mapped))
   \<and> \<not> expired (11001 * Millisecond) (ka_flushTime server_swept)
   \<and> mappings (fst (keepalive (11001 * Millisecond) (11001 * Millisecond) server_swept))
        = [(newAddrKey peerA, 500 * Millisecond)]
   \<and> WriteToUDP Public punchPayload peerA
        \<in> set (snd (keepalive (11001 * Millisecond) (11001 * Millisecond) server_swept))"
proof -
  have m: "mappings server_mapped = [(newAddrKey peerA, 500 * Millisecond)]"
    "ka_flushTime server_mapped = 0"
    by (simp_all add: server_mapped_def clock_500ms_def server_defs)
  have w: "mappings server_swept = [(newAddrKey peerA, 500 * Millisecond)]"
    "ka_flushTime server_swept = 10001 * Millisecond"
    by (simp_all add: server_swept_def clock_500ms_def server_defs)
  have e1: "expired (10600 * Millisecond) (ka_flushTime server_mapped)"
    by (simp add: m expired_def flushInterval_def Second_def Millisecond_def)
  have e2: "\<not> expired (11001 * Millisecond) (ka_flushTime server_swept)"
    by (simp add: w expired_def flushInterval_def Second_def Millisecond_def)
  have x: "expired (10600 * Millisecond) (500 * Millisecond)"
    by (simp add: expired_def flushInterval_def Second_def Millisecond_def)
  have t: "toUDP (newAddrKey peerA) = peerA"
    by (rule toUDP_newAddrKey)
  from keepalive_pass_sweeps_only_when_due
         [of "10600 * Millisecond" server_mapped "10600 * Millisecond"]
       keepalive_pass_sweeps_only_when_due
         [of "11001 * Millisecond" server_swept "11001 * Millisecond"]
  show ?thesis
    using e1 e2 x t by (simp add: m(1) w(1))
qed

section \<open>The client\<close>

lemmas client_defs =
  client_init_def client_start_def client_running_def appL_def client_remote_on_loopback_def
  client_remote_is_relay_def client_announce_def client_discover_def client_punch_def
  client_forward_def client_relayPayload_def localIpv4_Contains_def localIpv6_Contains_def
  punchPayload_def relayR_def Millisecond_def tag_def

lemma client_running_eq:
  "client_running =
     \<lparr>c_port = 34000, c_relayAddr = relayR,
      c_remoteAddr = \<lparr>IP = [203, 0, 113, 7], Port = 50000\<rparr>,
      c_pc = CRun, c_foundPeer = False, c_localAddr = \<lparr>IP = [], Port = 0\<rparr>\<rparr>"
  by (simp add: client_defs)

lemma client_remote_on_loopback_eq:
  "client_remote_on_loopback =
     \<lparr>c_port = 34000, c_relayAddr = relayR,
      c_remoteAddr = \<lparr>IP = [127, 0, 0, 1], Port = 50000\<rparr>,
      c_pc = CRun, c_foundPeer = False, c_localAddr = \<lparr>IP = [], Port = 0\<rparr>\<rparr>"
  by (simp add: client_defs)

lemma client_remote_is_relay_eq:
  "client_remote_is_relay =
     \<lparr>c_port = 34000, c_relayAddr = relayR,
      c_remoteAddr = relayR,
      c_pc = CRun, c_foundPeer = False, c_localAddr = appL\<rparr>"
  by (simp add: client_defs)

lemma fst_client_run_Cons:
  "fst (client_run s (e # es)) = fst (client_run (fst (client_step s e)) es)"
  by (simp add: split_beta)

lemma snd_client_run_Cons:
  "snd (client_run s (e # es)) =
     snd (client_step s e) @ snd (client_run (fst (client_step s e)) es)"
  by (simp add: split_beta)

lemma fst_client_run_append:
  "fst (client_run s (xs @ ys)) = fst (client_run (fst (client_run s xs)) ys)"
  by (induction xs arbitrary: s) (simp_all add: split_beta)

lemma client_discover_frame:
  "c_relayAddr (fst (client_discover r s)) = c_relayAddr s
   \<and> c_port (fst (client_discover r s)) = c_port s"
  by (cases r) (simp_all add: client_discover_def)

lemma client_forward_frame:
  "c_relayAddr (fst (client_forward r s)) = c_relayAddr s
   \<and> c_remoteAddr (fst (client_forward r s)) = c_remoteAddr s
   \<and> c_pc (fst (client_forward r s)) = c_pc s"
  by (cases r) (simp_all add: client_forward_def)

lemma c_relayAddr_step: "c_relayAddr (fst (client_step s e)) = c_relayAddr s"
  by (cases e; cases "c_pc s")
    (simp_all add: client_announce_def client_punch_def client_discover_frame client_forward_frame)

subsection \<open>Before and after the reply of the relay\<close>

lemma cdiscover_step:
  assumes "c_pc s = CDiscover" and "client_reply (c_relayAddr s) e = None"
  shows "c_pc (fst (client_step s e)) = CDiscover
    \<and> (\<forall>y\<in>set (snd (client_step s e)). \<forall>a. snd y \<noteq> WriteToUDP Public punchPayload a)"
proof (cases e)
  case Announce
  then show ?thesis using assms
    by (simp add: client_announce_def client_relayPayload_def punchPayload_def)
next
  case (ClientRecv r)
  then show ?thesis using assms
    by (cases r) (auto simp: client_discover_def split: if_splits)
next
  case Punch
  then show ?thesis using assms by simp
qed

lemma cdiscover_run:
  assumes "c_pc s = CDiscover" and "\<forall>x\<in>set es. client_reply (c_relayAddr s) x = None"
  shows "c_pc (fst (client_run s es)) = CDiscover
    \<and> c_relayAddr (fst (client_run s es)) = c_relayAddr s
    \<and> (\<forall>y\<in>set (snd (client_run s es)). \<forall>a. snd y \<noteq> WriteToUDP Public punchPayload a)"
  using assms
proof (induction es arbitrary: s)
  case Nil
  then show ?case by simp
next
  case (Cons e es)
  let ?s1 = "fst (client_step s e)"
  have r: "c_relayAddr ?s1 = c_relayAddr s" by (rule c_relayAddr_step)
  have st: "c_pc ?s1 = CDiscover"
    "\<forall>y\<in>set (snd (client_step s e)). \<forall>a. snd y \<noteq> WriteToUDP Public punchPayload a"
    using cdiscover_step [of s e] Cons.prems by auto
  have "\<forall>x\<in>set es. client_reply (c_relayAddr ?s1) x = None"
    using Cons.prems r by simp
  from Cons.IH [OF st(1) this] st(2) show ?case
    by (simp only: fst_client_run_Cons snd_client_run_Cons set_append r) blast
qed

lemma remote_unchanged_discover_step:
  "c_pc s = CDiscover \<Longrightarrow> client_reply (c_relayAddr s) e = None \<Longrightarrow>
   c_remoteAddr (fst (client_step s e)) = c_remoteAddr s"
proof (cases e)
  case (ClientRecv r)
  then show ?thesis if "c_pc s = CDiscover" "client_reply (c_relayAddr s) e = None"
    using that by (cases r) (auto simp: client_discover_def split: if_splits)
qed (auto simp: client_announce_def)

lemma remote_unchanged_discover_run:
  "c_pc s = CDiscover \<Longrightarrow> \<forall>x\<in>set es. client_reply (c_relayAddr s) x = None \<Longrightarrow>
   c_remoteAddr (fst (client_run s es)) = c_remoteAddr s"
proof (induction es arbitrary: s)
  case Nil
  then show ?case by simp
next
  case (Cons e es)
  let ?s1 = "fst (client_step s e)"
  have r: "c_relayAddr ?s1 = c_relayAddr s" by (rule c_relayAddr_step)
  have p: "c_pc ?s1 = CDiscover" using cdiscover_step [of s e] Cons.prems by auto
  have m: "c_remoteAddr ?s1 = c_remoteAddr s"
    using Cons.prems by (simp add: remote_unchanged_discover_step)
  have "\<forall>x\<in>set es. client_reply (c_relayAddr ?s1) x = None"
    using Cons.prems r by simp
  from Cons.IH [OF p this] m show ?case
    by (simp only: fst_client_run_Cons)
qed

lemma reply_step:
  assumes "c_pc s = CDiscover" and "client_reply (c_relayAddr s) e = Some [b0, b1]"
  shows "c_pc (fst (client_step s e)) = CRun
    \<and> c_remoteAddr (fst (client_step s e)) = (c_remoteAddr s)\<lparr>Port := uint b0 * 256 + uint b1\<rparr>"
proof (cases e)
  case (ClientRecv r)
  then show ?thesis using assms
    by (cases r) (auto simp: client_discover_def split: if_splits)
qed (use assms in auto)

lemma crun_step:
  "c_pc s = CRun \<Longrightarrow>
   c_pc (fst (client_step s e)) = CRun \<and> c_remoteAddr (fst (client_step s e)) = c_remoteAddr s"
  by (cases e) (simp_all add: client_announce_def client_punch_def client_forward_frame)

lemma crun_run:
  "c_pc s = CRun \<Longrightarrow>
   c_pc (fst (client_run s es)) = CRun \<and> c_remoteAddr (fst (client_run s es)) = c_remoteAddr s"
proof (induction es arbitrary: s)
  case Nil
  then show ?case by simp
next
  case (Cons e es)
  from Cons.IH [of "fst (client_step s e)"] crun_step [OF Cons.prems, of e] show ?case
    by (simp only: fst_client_run_Cons)
qed

text \<open>
  C7. In the client, on every schedule: (1) as long as no two-byte reply of the relay has
  been read, no one-byte packet 0xCD has been sent, to any address; (2) once the first such
  reply \<open>[b0, b1]\<close> has been read, at every later point of the run an iteration of the
  punching goroutine sends the one byte 0xCD to the remote host at port \<open>b0 * 256 + b1\<close>
  and then sleeps 500 ms, without changing the state: the goroutine never stops and the
  remote endpoint never changes.
\<close>

theorem client_punches_only_after_relay_reply:
  "((\<forall>x\<in>set sched. client_reply relay x = None) \<longrightarrow>
      (\<forall>y\<in>set (snd (client_run (client_init relay host prt) sched)).
         \<forall>a. snd y \<noteq> WriteToUDP Public [0xCD] a))
   \<and> ((\<forall>x\<in>set pre. client_reply relay x = None) \<and> client_reply relay e = Some [b0, b1] \<longrightarrow>
      client_step (fst (client_run (client_init relay host prt) (pre @ e # post))) Punch =
        (fst (client_run (client_init relay host prt) (pre @ e # post)),
         [(TPunch, WriteToUDP Public [0xCD] \<lparr>IP = host, Port = uint b0 * 256 + uint b1\<rparr>),
          (TPunch, Sleep (500 * Millisecond))]))"
proof -
  let ?i = "client_init relay host prt"
  have i: "c_pc ?i = CDiscover" "c_relayAddr ?i = relay" "c_remoteAddr ?i = \<lparr>IP = host, Port = prt\<rparr>"
    by (simp_all add: client_init_def)
  have A: "\<forall>y\<in>set (snd (client_run ?i sched)). \<forall>a. snd y \<noteq> WriteToUDP Public [0xCD] a"
    if "\<forall>x\<in>set sched. client_reply relay x = None"
    using cdiscover_run [of ?i sched] that i by (simp add: punchPayload_def)
  have B: "client_step (fst (client_run ?i (pre @ e # post))) Punch =
        (fst (client_run ?i (pre @ e # post)),
         [(TPunch, WriteToUDP Public [0xCD] \<lparr>IP = host, Port = uint b0 * 256 + uint b1\<rparr>),
          (TPunch, Sleep (500 * Millisecond))])"
    if np: "\<forall>x\<in>set pre. client_reply relay x = None" and rp: "client_reply relay e = Some [b0, b1]"
  proof -
    let ?s = "fst (client_run ?i pre)"
    have d: "c_pc ?s = CDiscover" "c_relayAddr ?s = relay"
      using cdiscover_run [of ?i pre] np i by auto
    have m: "c_remoteAddr ?s = \<lparr>IP = host, Port = prt\<rparr>"
      using remote_unchanged_discover_run [of ?i pre] np i by simp
    let ?s1 = "fst (client_step ?s e)"
    have s1: "c_pc ?s1 = CRun" "c_remoteAddr ?s1 = \<lparr>IP = host, Port = uint b0 * 256 + uint b1\<rparr>"
      using reply_step [of ?s e b0 b1] d rp m by simp_all
    let ?s2 = "fst (client_run ?i (pre @ e # post))"
    have e2: "?s2 = fst (client_run ?s1 post)"
      by (simp only: fst_client_run_append fst_client_run_Cons)
    have s2: "c_pc ?s2 = CRun" "c_remoteAddr ?s2 = \<lparr>IP = host, Port = uint b0 * 256 + uint b1\<rparr>"
      using crun_run [OF s1(1), of post] s1(2) e2 by simp_all
    show ?thesis
      using s2 by (simp add: client_punch_def punchPayload_def tag_def)
  qed
  show ?thesis using A B by blast
qed

theorem client_punches_only_after_relay_reply_witness:
  "client_reply relayR Announce = None
   \<and> client_reply relayR (ClientRecv (Recv [1, 2] appL)) = None
   \<and> client_reply relayR (ClientRecv (Recv [0xC3, 0x50] relayR)) = Some [0xC3, 0x50]
   \<and> snd (client_run client_start [Announce, ClientRecv (Recv [1, 2] appL), Punch]) =
        [(TAnnounce, WriteToUDP Public [0x84, 0xD0, 203, 0, 113, 7] relayR),
         (TAnnounce, Sleep (500 * Millisecond))]
   \<and> client_step
        (fst (client_run client_start
           ([Announce, ClientRecv (Recv [1, 2] appL), Punch]
            @ ClientRecv (Recv [0xC3, 0x50] relayR) # [Punch, ClientRecv (Recv [1, 2] appL), Announce])))
        Punch =
       (fst (client_run client_start
           ([Announce, ClientRecv (Recv [1, 2] appL), Punch]
            @ ClientRecv (Recv [0xC3, 0x50] relayR) # [Punch, ClientRecv (Recv [1, 2] appL), Announce])),
        [(TPunch, WriteToUDP Public [0xCD] \<lparr>IP = [203, 0, 113, 7], Port = 50000\<rparr>),
         (TPunch, Sleep (500 * Millisecond))])"
proof -
  have n: "\<forall>x\<in>set [Announce, ClientRecv (Recv [1, 2] appL), Punch]. client_reply relayR x = None"
    by (simp add: appL_def relayR_def)
  have r: "client_reply relayR (ClientRecv (Recv [0xC3, 0x50] relayR)) = Some [0xC3, 0x50]"
    by simp
  have t: "snd (client_run client_start [Announce, ClientRecv (Recv [1, 2] appL), Punch]) =
        [(TAnnounce, WriteToUDP Public [0x84, 0xD0, 203, 0, 113, 7] relayR),
         (TAnnounce, Sleep (500 * Millisecond))]"
    by (simp add: client_defs)
  have u: "uint (0xC3 :: byte) * 256 + uint (0x50 :: byte) = 50000"
    by simp
  from client_punches_only_after_relay_reply [of "[Announce, ClientRecv (Recv [1, 2] appL), Punch]" relayR "[203, 0, 113, 7]" 34000
      "[Announce, ClientRecv (Recv [1, 2] appL), Punch]" "ClientRecv (Recv [0xC3, 0x50] relayR)"
      "0xC3" "0x50" "[Punch, ClientRecv (Recv [1, 2] appL), Announce]"]
  show ?thesis
    using n r t by (simp only: u client_start_def [symmetric]) simp
qed

subsection \<open>Frames of the relay\<close>

text \<open>
  C8, as the code has it. The claim is false where it promises a warning for every
  datagram of the relay with a wrong length: once the client has its reply, its forwarding
  loop drops every datagram of the relay without a word.
\<close>

theorem relay_datagram_after_reply_dropped_silently:
  "c_relayAddr client_running = relayR
   \<and> c_pc client_running = CRun
   \<and> client_step client_running (ClientRecv (Recv [1, 2, 3] relayR)) = (client_running, [])"
  by (simp add: client_running_eq client_forward_def tag_def relayR_def)

text \<open>
  C8, amended. For a datagram from the relay endpoint, with \<open>n\<close> the number of bytes read
  into the 4096-byte buffer. While the client waits for its reply: if \<open>n\<close> is not 2, the
  datagram is discarded with a warning and the state is unchanged. While the relay receive
  goroutine of the server runs: if \<open>n < 4\<close> or \<open>n mod 6\<close> is not 4, the datagram is discarded
  with a warning and the state is unchanged. In the forwarding loop of the client, a
  datagram of the relay of any length is discarded without a warning and the state is
  unchanged.
\<close>

theorem relay_frames_of_wrong_size_discarded:
  "(IP a = IP (c_relayAddr s) \<and> Port a = Port (c_relayAddr s) \<longrightarrow>
      (c_pc s = CDiscover \<and> length (take 4096 p) \<noteq> 2 \<longrightarrow>
         client_step s (ClientRecv (Recv p a)) =
           (s, [(TClient, Stderr (RelayWrongSize (length (take 4096 p))))]))
      \<and> (c_pc s = CRun \<longrightarrow> client_step s (ClientRecv (Recv p a)) = (s, [])))
   \<and> (IP a = IP (s_relayAddr t) \<and> Port a = Port (s_relayAddr t)
       \<and> \<not> exited t \<and> \<not> relay_returned t
       \<and> (length (take 4096 p) < 4 \<or> length (take 4096 p) mod 6 \<noteq> 4) \<longrightarrow>
         server_step t (RelayRecv (Recv p a) clk) =
           (t, [(TRelay, Stderr (RelayWrongSize (length (take 4096 p))))]))"
proof -
  have c1: "client_step s (ClientRecv (Recv p a)) =
           (s, [(TClient, Stderr (RelayWrongSize (length (take 4096 p))))])"
    if "IP a = IP (c_relayAddr s)" "Port a = Port (c_relayAddr s)" "c_pc s = CDiscover"
       "length (take 4096 p) \<noteq> 2"
    using that by (simp add: client_discover_def tag_def)
  have c2: "client_step s (ClientRecv (Recv p a)) = (s, [])"
    if "IP a = IP (c_relayAddr s)" "Port a = Port (c_relayAddr s)" "c_pc s = CRun"
    using that by (simp add: client_forward_def tag_def)
  have s1: "server_step t (RelayRecv (Recv p a) clk) =
           (t, [(TRelay, Stderr (RelayWrongSize (length (take 4096 p))))])"
    if "IP a = IP (s_relayAddr t)" "Port a = Port (s_relayAddr t)" "\<not> exited t" "\<not> relay_returned t"
       "length (take 4096 p) < 4 \<or> length (take 4096 p) mod 6 \<noteq> 4"
    using that by (auto simp: relay_recv_def tag_def)
  show ?thesis
    using c1 c2 s1 by blast
qed

theorem relay_frames_of_wrong_size_discarded_witness:
  "c_pc client_start = CDiscover
   \<and> client_step client_start (ClientRecv (Recv [1, 2, 3] relayR)) =
       (client_start, [(TClient, Stderr (RelayWrongSize 3))])
   \<and> c_pc client_running = CRun
   \<and> client_step client_running (ClientRecv (Recv [1, 2, 3] relayR)) = (client_running, [])
   \<and> relay_returned (server_init relayR 7000 0) = False
   \<and> server_step (server_init relayR 7000 0) (RelayRecv (Recv [1, 2, 3, 4, 5] relayR) clock_1ms) =
       (server_init relayR 7000 0, [(TRelay, Stderr (RelayWrongSize 5))])"
proof -
  have a: "IP relayR = IP (c_relayAddr client_start) \<and> Port relayR = Port (c_relayAddr client_start)"
    "c_pc client_start = CDiscover"
    by (simp_all add: client_start_def client_init_def)
  have b: "IP relayR = IP (c_relayAddr client_running) \<and> Port relayR = Port (c_relayAddr client_running)"
    "c_pc client_running = CRun"
    by (simp_all add: client_running_eq)
  have c: "IP relayR = IP (s_relayAddr (server_init relayR 7000 0))
      \<and> Port relayR = Port (s_relayAddr (server_init relayR 7000 0))
      \<and> \<not> exited (server_init relayR 7000 0)"
    "\<not> relay_returned (server_init relayR 7000 0)"
    by (simp_all add: server_init_def)
  from relay_frames_of_wrong_size_discarded
         [of relayR client_start "[1, 2, 3]" "server_init relayR 7000 0" clock_1ms]
       relay_frames_of_wrong_size_discarded
         [of relayR client_running "[1, 2, 3]" "server_init relayR 7000 0" clock_1ms]
       relay_frames_of_wrong_size_discarded
         [of relayR client_start "[1, 2, 3, 4, 5]" "server_init relayR 7000 0" clock_1ms]
  show ?thesis
    using a b c by simp
qed

subsection \<open>Framing in the client\<close>

text \<open>
  C3, as the code has it. The claim is false for a payload from a loopback source in three
  cases: before the reply of the relay the client drops it; a loopback source that is the
  remote endpoint itself is taken for the peer; and a datagram of the remote endpoint is
  dropped when that endpoint is also the relay's.
\<close>

theorem loopback_payload_not_always_forwarded:
  "c_pc client_start = CDiscover
   \<and> localIpv4_Contains (IP appL)
   \<and> client_step client_start (ClientRecv (Recv [1, 2] appL)) = (client_start, [])
   \<and> c_pc client_remote_on_loopback = CRun
   \<and> localIpv4_Contains (IP \<lparr>IP = [127, 0, 0, 1], Port = 50000\<rparr>)
   \<and> client_step client_remote_on_loopback
        (ClientRecv (Recv [1, 2] \<lparr>IP = [127, 0, 0, 1], Port = 50000\<rparr>)) =
       (client_remote_on_loopback\<lparr>c_foundPeer := True\<rparr>, [(TClient, Println ConnectedToPeer)])
   \<and> c_remoteAddr client_remote_is_relay = relayR
   \<and> c_localAddr client_remote_is_relay = appL
   \<and> client_step client_remote_is_relay (ClientRecv (Recv [0xCC, 1] relayR)) =
       (client_remote_is_relay, [])"
  by (simp add: client_remote_on_loopback_eq client_remote_is_relay_eq client_start_def
      client_init_def client_discover_def client_forward_def tag_def appL_def relayR_def
      localIpv4_Contains_def)

text \<open>
  C3, amended. In the forwarding loop of the client (after the reply of the relay):
  (1) for every payload \<open>P\<close> with \<open>1 \<le> |P| \<le> 4095\<close> from a loopback source that is neither the
  relay endpoint nor the remote endpoint, the client sends exactly 0xCC followed by \<open>P\<close> to
  the remote endpoint and sets \<open>localAddr\<close> to the source, and does nothing else;
  (2) for every datagram of at most 4095 bytes from the remote endpoint (when it is not the
  relay endpoint) whose first byte is 0xCC, when \<open>localAddr\<close> is set (its port is not 0),
  exactly the bytes after the tag are sent to \<open>localAddr\<close>; the only other effects are the
  message of the first contact and the flag \<open>foundPeer\<close>;
  (3) in every phase, a datagram from the remote endpoint that is empty or whose first byte
  is not 0xCC causes no write at all.
\<close>

theorem client_framing_in_forwarding_loop:
  "(c_pc s = CRun \<and> 1 \<le> length p \<and> length p \<le> 4095
      \<and> (localIpv4_Contains (IP a) \<or> localIpv6_Contains (IP a))
      \<and> \<not> (IP a = IP (c_relayAddr s) \<and> Port a = Port (c_relayAddr s))
      \<and> \<not> (IP a = IP (c_remoteAddr s) \<and> Port a = Port (c_remoteAddr s)) \<longrightarrow>
      client_step s (ClientRecv (Recv p a)) =
        (s\<lparr>c_localAddr := a\<rparr>, [(TClient, WriteToUDP Public (0xCC # p) (c_remoteAddr s))]))
   \<and> (c_pc s = CRun \<and> IP a = IP (c_remoteAddr s) \<and> Port a = Port (c_remoteAddr s)
      \<and> \<not> (IP a = IP (c_relayAddr s) \<and> Port a = Port (c_relayAddr s))
      \<and> length (0xCC # q) \<le> 4095 \<and> Port (c_localAddr s) \<noteq> 0 \<longrightarrow>
      client_step s (ClientRecv (Recv (0xCC # q) a)) =
        (s\<lparr>c_foundPeer := True\<rparr>,
         (if c_foundPeer s then [] else [(TClient, Println ConnectedToPeer)])
         @ [(TClient, WriteToUDP Public q (c_localAddr s))]))
   \<and> (IP a = IP (c_remoteAddr s) \<and> Port a = Port (c_remoteAddr s) \<and> (p = [] \<or> hd p \<noteq> 0xCC) \<longrightarrow>
      (\<forall>y\<in>set (snd (client_step s (ClientRecv (Recv p a)))). \<forall>w d. snd y \<noteq> WriteToUDP Public w d))"
proof -
  have f1: "client_step s (ClientRecv (Recv p a)) =
        (s\<lparr>c_localAddr := a\<rparr>, [(TClient, WriteToUDP Public (0xCC # p) (c_remoteAddr s))])"
    if "c_pc s = CRun" "length p \<le> 4095"
       "localIpv4_Contains (IP a) \<or> localIpv6_Contains (IP a)"
       "\<not> (IP a = IP (c_relayAddr s) \<and> Port a = Port (c_relayAddr s))"
       "\<not> (IP a = IP (c_remoteAddr s) \<and> Port a = Port (c_remoteAddr s))"
    using that by (auto simp: client_forward_def tag_def)
  have f2: "client_step s (ClientRecv (Recv (0xCC # q) a)) =
        (s\<lparr>c_foundPeer := True\<rparr>,
         (if c_foundPeer s then [] else [(TClient, Println ConnectedToPeer)])
         @ [(TClient, WriteToUDP Public q (c_localAddr s))])"
    if "c_pc s = CRun" "IP a = IP (c_remoteAddr s)" "Port a = Port (c_remoteAddr s)"
       "\<not> (IP a = IP (c_relayAddr s) \<and> Port a = Port (c_relayAddr s))"
       "length (0xCC # q) \<le> 4095" "Port (c_localAddr s) \<noteq> 0"
  proof -
    have "take 4095 (0xCC # q) = 0xCC # q"
      using that(5) by simp
    then show ?thesis
      using that by (auto simp: client_forward_def tag_def simp del: take_Suc_Cons take_Cons_numeral)
  qed
  have f3: "\<forall>y\<in>set (snd (client_step s (ClientRecv (Recv p a)))). \<forall>w d. snd y \<noteq> WriteToUDP Public w d"
    if "IP a = IP (c_remoteAddr s)" "Port a = Port (c_remoteAddr s)" "p = [] \<or> hd p \<noteq> 0xCC"
  proof -
    have h: "take 4095 p = [] \<or> hd (take 4095 p) \<noteq> 0xCC"
      using that(3) by (cases p) auto
    show ?thesis
    proof (cases "c_pc s")
      case CDiscover
      then show ?thesis by (auto simp: client_discover_def split: if_splits)
    next
      case CRun
      then show ?thesis using that(1,2) h
        by (auto simp: client_forward_def split: if_splits)
    qed
  qed
  show ?thesis
    using f1 f2 f3 by blast
qed

theorem client_framing_in_forwarding_loop_witness:
  "c_pc client_running = CRun
   \<and> localIpv4_Contains (IP appL)
   \<and> client_step client_running (ClientRecv (Recv [1, 2] appL)) =
       (client_running\<lparr>c_localAddr := appL\<rparr>,
        [(TClient, WriteToUDP Public [0xCC, 1, 2] \<lparr>IP = [203, 0, 113, 7], Port = 50000\<rparr>)])
   \<and> c_localAddr client_with_app = appL
   \<and> client_step client_with_app
        (ClientRecv (Recv [0xCC, 0x50, 0x6F, 0x6E, 0x67] \<lparr>IP = [203, 0, 113, 7], Port = 50000\<rparr>)) =
       (client_with_app\<lparr>c_foundPeer := True\<rparr>,
        [(TClient, Println ConnectedToPeer), (TClient, WriteToUDP Public [0x50, 0x6F, 0x6E, 0x67] appL)])
   \<and> snd (client_step client_with_app
        (ClientRecv (Recv [0xCD] \<lparr>IP = [203, 0, 113, 7], Port = 50000\<rparr>))) =
       [(TClient, Println ConnectedToPeer)]"
proof -
  have w: "client_with_app = client_running\<lparr>c_localAddr := appL\<rparr>"
    by (simp add: client_with_app_def client_running_eq client_forward_def tag_def appL_def
        relayR_def localIpv4_Contains_def)
  have h1: "c_pc client_running = CRun \<and> 1 \<le> length [1, 2 :: byte] \<and> length [1, 2 :: byte] \<le> 4095
      \<and> (localIpv4_Contains (IP appL) \<or> localIpv6_Contains (IP appL))
      \<and> \<not> (IP appL = IP (c_relayAddr client_running) \<and> Port appL = Port (c_relayAddr client_running))
      \<and> \<not> (IP appL = IP (c_remoteAddr client_running) \<and> Port appL = Port (c_remoteAddr client_running))"
    by (simp add: client_running_eq appL_def relayR_def localIpv4_Contains_def)
  have h2: "c_pc client_with_app = CRun
      \<and> IP \<lparr>IP = [203, 0, 113, 7], Port = 50000\<rparr> = IP (c_remoteAddr client_with_app)
      \<and> Port \<lparr>IP = [203, 0, 113, 7], Port = 50000\<rparr> = Port (c_remoteAddr client_with_app)
      \<and> \<not> (IP \<lparr>IP = [203, 0, 113, 7], Port = 50000\<rparr> = IP (c_relayAddr client_with_app)
           \<and> Port \<lparr>IP = [203, 0, 113, 7], Port = 50000\<rparr> = Port (c_relayAddr client_with_app))
      \<and> length (0xCC # [0x50, 0x6F, 0x6E, 0x67 :: byte]) \<le> 4095
      \<and> Port (c_localAddr client_with_app) \<noteq> 0"
    by (simp add: w client_running_eq appL_def relayR_def)
  have h3: "[0xCD :: byte] = [] \<or> hd [0xCD :: byte] \<noteq> 0xCC"
    by simp
  have f: "c_foundPeer client_with_app = False" "c_localAddr client_with_app = appL"
    by (simp_all add: w client_running_eq)
  have r: "c_remoteAddr client_running = \<lparr>IP = [203, 0, 113, 7], Port = 50000\<rparr>"
    by (simp add: client_running_eq)
  have e: "snd (client_step client_with_app
        (ClientRecv (Recv [0xCD] \<lparr>IP = [203, 0, 113, 7], Port = 50000\<rparr>))) =
       [(TClient, Println ConnectedToPeer)]"
    by (simp add: w client_running_eq client_forward_def tag_def relayR_def)
  from client_framing_in_forwarding_loop [of client_running "[1, 2]" appL "[]"]
       client_framing_in_forwarding_loop [of client_with_app "[0xCD]" "\<lparr>IP = [203, 0, 113, 7], Port = 50000\<rparr>" "[0x50, 0x6F, 0x6E, 0x67]"]
  show ?thesis
    using h1 h2 h3 f r e by (simp add: localIpv4_Contains_def appL_def)
qed

section \<open>Where the code departs from the claims\<close>

subsection \<open>Relay frames after the first reply\<close>

text \<open>
  The relay receive goroutine returns after the first frame of a valid size, and the
  forwarding loop drops what the relay sends: from then on no step adds an entry to the
  mapping table.
\<close>

lemma mappings_step_after_return:
  "relay_returned s \<Longrightarrow>
   relay_returned (fst (server_step s e)) \<and> set (mappings (fst (server_step s e))) \<subseteq> set (mappings s)"
  by (cases e)
    (auto simp: keepalive_def main_start_def main_sweep_def main_recv_def peer_recv_def Let_def
      split: option.splits prod.splits if_splits)

lemma mappings_run_after_return:
  "relay_returned s \<Longrightarrow> set (mappings (fst (server_run s es))) \<subseteq> set (mappings s)"
proof (induction es arbitrary: s)
  case Nil
  then show ?case by simp
next
  case (Cons e es)
  from mappings_step_after_return [OF Cons.prems, of e] Cons.IH [of "fst (server_step s e)"]
  show ?case
    by (simp only: fst_server_run_Cons) blast
qed

text \<open>
  C1. The claim asks that the records of every valid frame of the relay reach the mapping
  table, at any time. The code stores the records of the first valid frame only: the frame
  with the record of 198.51.100.9:10000 is stored when it is the first reply, and is not
  when it comes after the first reply; the mapping table stays empty and the next keepalive
  pass punches nobody.
\<close>

theorem later_relay_frame_is_not_stored:
  "relay_reply relayR (RelayRecv (Recv frame_with_peer relayR) clock_1ms) = Some frame_with_peer
   \<and> mappings server_mapped = [(newAddrKey peerA, 500 * Millisecond)]
   \<and> mappings server_ready = []
   \<and> mappings (fst (server_run server_ready later_frame_schedule)) = []
   \<and> snd (server_run server_ready later_frame_schedule) =
       [(TKeepalive, WriteToUDP Public [0x1B, 0x58] relayR),
        (TKeepalive, Sleep (500 * Millisecond))]"
  by (simp add: later_frame_schedule_def server_ready_eq server_mapped_def clock_500ms_def
      clock_1ms_def server_defs)

subsection \<open>Closing a peer's socket\<close>

text \<open>
  C2. The claim asks that the loopback socket of a peer record is closed exactly once, by
  the sweeper or by the per-peer goroutine, never both, and that whoever closes it removes
  the record first. On the schedule \<open>reconnect_schedule\<close> the socket 0 is closed by the
  sweeper and again by its goroutine, which finds the record of the peer's new socket under
  its key; the goroutine closes before it deletes; and the record of socket 1 is gone from
  the table while socket 1 is open and its goroutine still runs.
\<close>

theorem evicted_peer_socket_closed_twice:
  "snd (server_run server_with_peer reconnect_schedule) =
     [(TMain, Println (PeerTimeout [198, 51, 100, 9])),
      (TMain, PeersDelete (newAddrKey peerA)),
      (TMain, Close (Loop 0)),
      (TMain, Println (NewPeer [198, 51, 100, 9])),
      (TMain, ListenUDP (Loop 1)),
      (TPeer 0, Stderr (PeerReadFailed peerA)),
      (TPeer 0, Close (Loop 0)),
      (TPeer 0, PeersDelete (newAddrKey peerA))]
   \<and> peers (fst (server_run server_with_peer reconnect_schedule)) = []
   \<and> tasks (fst (server_run server_with_peer reconnect_schedule)) =
       [\<lparr>t_cLocal = 1, t_addrKey = newAddrKey peerA, t_addr = peerA\<rparr>]"
  by (simp add: reconnect_schedule_def server_with_peer_eq server_defs)

end
